theory Spec2Isabelle
  imports Main "HOL-Library.Sublist" "HOL-Library.Product_Lexorder"
begin

section \<open>Values, errors and the libraries the version catalog calls\<close>

text \<open>
  JavaScript exceptions (and rejected promises) are values of a sum type: \<open>Inl\<close> is the
  exception, \<open>Inr\<close> the returned (resolved) value.
  \<^item> \<open>Error msg\<close>: \<^verbatim>\<open>throw new Error(msg)\<close> of the repository's own code;
  \<^item> \<open>TypeError\<close>: reading a property of \<^verbatim>\<open>null\<close> or \<^verbatim>\<open>undefined\<close>;
  \<^item> \<open>SyntaxError\<close>: \<^verbatim>\<open>new RegExp(src)\<close> on a source that does not compile;
  \<^item> \<open>InvalidVersion\<close>: the semver library's \<^verbatim>\<open>TypeError('Invalid Version: ...')\<close>;
  \<^item> \<open>RangeError\<close>: \<^verbatim>\<open>toISOString()\<close> of an invalid Date.
\<close>

datatype js_error = Error string | TypeError | SyntaxError | InvalidVersion | RangeError

text \<open>
  The result of \<^verbatim>\<open>String.prototype.match\<close> with a non-global regular expression: an array
  (of length at least one) with a \<^verbatim>\<open>groups\<close> property, which is \<^verbatim>\<open>undefined\<close> when the
  pattern has no named group; a named group that took no part in the match is
  \<^verbatim>\<open>undefined\<close> too. \<open>None\<close> is \<^verbatim>\<open>undefined\<close>.
\<close>

record rx_match =
  m_length :: nat
  m_groups :: "(string \<rightharpoonup> string) option"

text \<open>A compiled regular expression is its match function; \<open>None\<close> is \<^verbatim>\<open>null\<close> (no match).\<close>

type_synonym regexp = "string \<Rightarrow> rx_match option"

text \<open>A Date is its time value in milliseconds since the epoch; \<open>None\<close> is an invalid Date (NaN).\<close>

type_synonym date = "int option"

subsection \<open>Releases and versions\<close>

text \<open>
  A release as the backend gives it. \<open>asset_id\<close> is the asset's id as \<^verbatim>\<open>String(asset.id)\<close>
  renders it, \<open>release_published_at\<close> the Date that \<^verbatim>\<open>new Date(release.published_at)\<close>
  builds, \<open>body\<close> is \<open>None\<close> when the release has no notes.
\<close>

record raw_asset =
  asset_id :: string
  asset_name :: string
  asset_size :: nat
  asset_content_type :: string
  download_count :: nat

record release =
  tag_name :: string
  draft :: bool
  body :: "string option"
  release_published_at :: date
  assets :: "raw_asset list"

record platform_asset =
  p_id :: string
  p_type :: string
  filename :: string
  p_size :: nat
  p_content_type :: string
  raw :: raw_asset

record Version =
  version :: string
  tag :: string
  channel :: string
  "notes" :: string
  published_at :: date
  platforms :: "platform_asset list"

subsection \<open>Libraries\<close>

text \<open>
  What the module requires from outside its own file, taken as parameters:
  \<^item> \<open>RegExp\<close>: the regular-expression engine, \<open>None\<close> when the source does not compile;
  \<^item> \<open>sv_prec\<close>: the semver library's parser, giving a version's precedence in a linear
    order (\<^verbatim>\<open>semver.gt\<close> and \<^verbatim>\<open>semver.lt\<close> both go through \<^verbatim>\<open>semver.compare\<close>), \<open>None\<close> for a
    string that is not a semantic version;
  \<^item> \<open>sv_satisfies\<close>: \<^verbatim>\<open>semver.satisfies(version, range)\<close>, which depending on the library's
    version returns false or throws on a version that does not parse;
  \<^item> \<open>pf_detect\<close> and \<open>pf_satisfies\<close>: \<^verbatim>\<open>platforms.detect\<close> and \<^verbatim>\<open>platforms.satisfies\<close> of
    \<^verbatim>\<open>utils/platforms\<close>; \<open>None\<close> is a falsy result of \<^verbatim>\<open>detect\<close>;
  \<^item> \<open>notes_merge\<close>: \<^verbatim>\<open>notes.merge(versions, {includeTag: false})\<close> of \<^verbatim>\<open>utils/notes\<close>.
\<close>

record 'k externals =
  RegExp :: "string \<Rightarrow> regexp option"
  sv_prec :: "string \<Rightarrow> 'k option"
  sv_satisfies :: "string \<Rightarrow> string \<Rightarrow> js_error + bool"
  pf_detect :: "string \<Rightarrow> string option"
  pf_satisfies :: "string \<Rightarrow> string list \<Rightarrow> bool"
  notes_merge :: "Version list \<Rightarrow> string"

text \<open>Truthiness of a value that is a string, \<^verbatim>\<open>null\<close> or \<^verbatim>\<open>undefined\<close>: a non-empty string.\<close>

fun truthy :: "string option \<Rightarrow> bool" where
  "truthy None = False"
| "truthy (Some s) = (s \<noteq> [])"

text \<open>\<^verbatim>\<open>str.split(c)\<close> for a one-character separator: never empty, \<^verbatim>\<open>''.split(c)\<close> is \<^verbatim>\<open>['']\<close>.\<close>

fun split :: "char \<Rightarrow> string \<Rightarrow> string list" where
  "split c [] = [[]]"
| "split c (x # xs) =
     (if x = c then [] # split c xs
      else (case split c xs of [] \<Rightarrow> [[x]] | w # ws \<Rightarrow> (x # w) # ws))"

text \<open>\<^verbatim>\<open>xs[i]\<close>, which is \<^verbatim>\<open>undefined\<close> out of range.\<close>

fun at_index :: "'a list \<Rightarrow> nat \<Rightarrow> 'a option" where
  "at_index [] i = None"
| "at_index (x # xs) 0 = Some x"
| "at_index (x # xs) (Suc i) = at_index xs i"

section \<open>Tags and channels\<close>

text \<open>\<^verbatim>\<open>matches.groups?.version\<close>\<close>

definition groups_version :: "rx_match \<Rightarrow> string option" where
  "groups_version matches =
     (case m_groups matches of None \<Rightarrow> None | Some g \<Rightarrow> g ''version'')"

text \<open>
  \<^verbatim>\<open>normalizeTag(tag, tagNameFilter)\<close>. \<^verbatim>\<open>tag.match(regex)\<close> is \<^verbatim>\<open>null\<close> when the pattern does
  not match, and the test \<^verbatim>\<open>matches.length < 0\<close> that follows reads a property of it.
\<close>

definition normalizeTag :: "'k externals \<Rightarrow> string \<Rightarrow> string option \<Rightarrow> js_error + string" where
  "normalizeTag X tag' tagNameFilter =
     (if truthy tagNameFilter then
        (case RegExp X (case tagNameFilter of Some src \<Rightarrow> src | None \<Rightarrow> []) of
           None \<Rightarrow> Inl SyntaxError
         | Some regex \<Rightarrow>
             (case regex tag' of
                None \<Rightarrow> Inl TypeError
              | Some matches \<Rightarrow>
                  if int (m_length matches) < 0 \<or> \<not> truthy (groups_version matches)
                  then Inr tag'
                  else (case groups_version matches of
                          Some v \<Rightarrow> Inr v | None \<Rightarrow> Inr tag')))
      else if at_index tag' 0 = Some CHR ''v'' then Inr (drop 1 tag')
      else Inr tag')"

text \<open>The inner function \<^verbatim>\<open>getSuffix(str)\<close> of \<^verbatim>\<open>extractChannel\<close>.\<close>

definition getSuffix :: "string \<Rightarrow> string" where
  "getSuffix str =
     (case at_index (split CHR ''-'' str) 1 of
        None \<Rightarrow> ''stable''
      | Some sfx \<Rightarrow>
          if sfx = [] then ''stable'' else hd (split CHR ''.'' sfx))"

definition extractChannel :: "'k externals \<Rightarrow> string \<Rightarrow> string option \<Rightarrow> js_error + string" where
  "extractChannel X tag' tagNameFilter =
     (if \<not> truthy tagNameFilter then Inr (getSuffix tag')
      else
        (case RegExp X (case tagNameFilter of Some src \<Rightarrow> src | None \<Rightarrow> []) of
           None \<Rightarrow> Inl SyntaxError
         | Some regex \<Rightarrow>
             (case regex tag' of
                None \<Rightarrow> Inl TypeError
              | Some matches \<Rightarrow>
                  if int (m_length matches) < 0 \<or> \<not> truthy (groups_version matches)
                  then Inr ''stable''
                  else (case groups_version matches of
                          Some v \<Rightarrow> Inr (getSuffix v) | None \<Rightarrow> Inr ''stable''))))"

section \<open>Normalising a release\<close>

text \<open>Sequencing of two steps of which the first may throw.\<close>

fun and_then :: "js_error + 'a \<Rightarrow> ('a \<Rightarrow> js_error + 'b) \<Rightarrow> js_error + 'b" where
  "and_then (Inl e) f = Inl e"
| "and_then (Inr x) f = f x"

text \<open>\<^verbatim>\<open>_.compact\<close> on a list of objects and \<^verbatim>\<open>null\<close>s.\<close>

fun compact :: "'a option list \<Rightarrow> 'a list" where
  "compact [] = []"
| "compact (None # xs) = compact xs"
| "compact (Some x # xs) = x # compact xs"

text \<open>\<^verbatim>\<open>_.map\<close> and \<^verbatim>\<open>_.filter\<close> with a callback that may throw: the first exception ends the loop.\<close>

fun chain_map :: "('a \<Rightarrow> js_error + 'b) \<Rightarrow> 'a list \<Rightarrow> js_error + 'b list" where
  "chain_map f [] = Inr []"
| "chain_map f (x # xs) =
     and_then (f x) (\<lambda>y. and_then (chain_map f xs) (\<lambda>ys. Inr (y # ys)))"

fun chain_filter :: "('a \<Rightarrow> js_error + bool) \<Rightarrow> 'a list \<Rightarrow> js_error + 'a list" where
  "chain_filter p [] = Inr []"
| "chain_filter p (x # xs) =
     and_then (p x) (\<lambda>b. and_then (chain_filter p xs) (\<lambda>ys. Inr (if b then x # ys else ys)))"

text \<open>The callback of the map over \<^verbatim>\<open>release.assets\<close> in \<^verbatim>\<open>normalizeVersion\<close>.\<close>

definition asset_platform :: "'k externals \<Rightarrow> raw_asset \<Rightarrow> platform_asset option" where
  "asset_platform X asset =
     (case pf_detect X (asset_name asset) of
        None \<Rightarrow> None
      | Some platform \<Rightarrow>
          if \<not> truthy (Some platform) then None
          else
            Some \<lparr>p_id = asset_id asset, p_type = platform, filename = asset_name asset,
                  p_size = asset_size asset, p_content_type = asset_content_type asset,
                  raw = asset\<rparr>)"

text \<open>
  \<^verbatim>\<open>normalizeVersion(release, tagNameFilter)\<close>; \<open>Inr None\<close> is the \<^verbatim>\<open>null\<close> of an excluded
  release. \<^verbatim>\<open>regex.test(s)\<close> of a regular expression without flags is true exactly when
  \<^verbatim>\<open>s.match(regex)\<close> is not \<^verbatim>\<open>null\<close>. The local \<^verbatim>\<open>downloadCount\<close> is summed and never read.
\<close>

definition normalizeVersion ::
  "'k externals \<Rightarrow> release \<Rightarrow> string option \<Rightarrow> js_error + Version option" where
  "normalizeVersion X release tagNameFilter =
     (if draft release then Inr None
      else
        and_then
          (if truthy tagNameFilter then
             (case RegExp X (case tagNameFilter of Some src \<Rightarrow> src | None \<Rightarrow> []) of
                None \<Rightarrow> Inl SyntaxError
              | Some regex \<Rightarrow> Inr (regex (tag_name release) \<noteq> None))
           else Inr True)
          (\<lambda>test.
             if \<not> test then Inr None
             else
               (let releasePlatforms = compact (map (asset_platform X) (assets release)) in
                and_then (normalizeTag X (tag_name release) tagNameFilter) (\<lambda>v.
                and_then (normalizeTag X (tag_name release) tagNameFilter) (\<lambda>t.
                and_then (extractChannel X (tag_name release) tagNameFilter) (\<lambda>c.
                  Inr (Some \<lparr>version = v,
                             tag = hd (split CHR ''-'' t),
                             channel = c,
                             notes = (case body release of None \<Rightarrow> [] | Some b \<Rightarrow> b),
                             published_at = release_published_at release,
                             platforms = releasePlatforms\<rparr>)))))))"

text \<open>\<^verbatim>\<open>semver.gt\<close> and \<^verbatim>\<open>semver.lt\<close>: both parse both arguments and throw on either.\<close>

definition semver_gt :: "('k::linorder) externals \<Rightarrow> string \<Rightarrow> string \<Rightarrow> js_error + bool" where
  "semver_gt X a b =
     (case sv_prec X a of
        None \<Rightarrow> Inl InvalidVersion
      | Some x \<Rightarrow> (case sv_prec X b of None \<Rightarrow> Inl InvalidVersion | Some y \<Rightarrow> Inr (x > y)))"

definition semver_lt :: "('k::linorder) externals \<Rightarrow> string \<Rightarrow> string \<Rightarrow> js_error + bool" where
  "semver_lt X a b =
     (case sv_prec X a of
        None \<Rightarrow> Inl InvalidVersion
      | Some x \<Rightarrow> (case sv_prec X b of None \<Rightarrow> Inl InvalidVersion | Some y \<Rightarrow> Inr (x < y)))"

definition compareVersions ::
  "('k::linorder) externals \<Rightarrow> Version \<Rightarrow> Version \<Rightarrow> js_error + int" where
  "compareVersions X v1 v2 =
     and_then (semver_gt X (tag v1) (tag v2)) (\<lambda>gt.
       if gt then Inr (- 1)
       else and_then (semver_lt X (tag v1) (tag v2)) (\<lambda>lt.
         if lt then Inr 1 else Inr 0))"

text \<open>
  \<^verbatim>\<open>Array.prototype.sort(comparefn)\<close>. The language fixes that the sort is stable and that an
  exception of the comparator ends it; the sequence of comparator calls is left to the
  engine. The model is the stable insertion sort: an array of fewer than two elements is
  returned without a call, and otherwise every element is compared with another one.
\<close>

fun sort_insert :: "('a \<Rightarrow> 'a \<Rightarrow> js_error + int) \<Rightarrow> 'a \<Rightarrow> 'a list \<Rightarrow> js_error + 'a list" where
  "sort_insert comparefn x [] = Inr [x]"
| "sort_insert comparefn x (y # ys) =
     and_then (comparefn x y) (\<lambda>c.
       if c \<le> 0 then Inr (x # y # ys)
       else and_then (sort_insert comparefn x ys) (\<lambda>zs. Inr (y # zs)))"

fun array_sort :: "('a \<Rightarrow> 'a \<Rightarrow> js_error + int) \<Rightarrow> 'a list \<Rightarrow> js_error + 'a list" where
  "array_sort comparefn [] = Inr []"
| "array_sort comparefn (x # xs) =
     and_then (array_sort comparefn xs) (sort_insert comparefn x)"

section \<open>The class Versions\<close>

text \<open>
  An instance of the class: \<open>backend_releases\<close> is the list that the promise of
  \<^verbatim>\<open>this.backend.releases()\<close> resolves to.
\<close>

record Versions =
  backend_releases :: "release list"
  tagNameFilter :: "string option"

text \<open>The releases mapped and compacted, in the backend's order: what \<^verbatim>\<open>list()\<close> sorts.\<close>

definition normalized :: "'k externals \<Rightarrow> Versions \<Rightarrow> js_error + Version list" where
  "normalized X this =
     and_then (chain_map (\<lambda>r. normalizeVersion X r (tagNameFilter this)) (backend_releases this))
       (\<lambda>vs. Inr (compact vs))"

definition Versions_list :: "('k::linorder) externals \<Rightarrow> Versions \<Rightarrow> js_error + Version list" where
  "Versions_list X this = and_then (normalized X this) (array_sort (compareVersions X))"

text \<open>
  The options object of \<^verbatim>\<open>filter\<close> and \<^verbatim>\<open>resolve\<close>; \<open>None\<close> is a field that is absent,
  \<^verbatim>\<open>undefined\<close> or (for the platform) \<^verbatim>\<open>null\<close>.
\<close>

record options =
  opt_tag :: "string option"
  opt_platform :: "string option"
  opt_channel :: "string option"

definition no_options :: options where
  "no_options = \<lparr>opt_tag = None, opt_platform = None, opt_channel = None\<rparr>"

text \<open>
  \<^verbatim>\<open>_.defaults(object, {tag: 'latest', platform: null, channel: 'stable'})\<close>: assigns the
  fields of \<open>object\<close> that are \<^verbatim>\<open>undefined\<close>, in \<open>object\<close> itself, and returns it.
\<close>

definition defaults :: "options \<Rightarrow> options" where
  "defaults object =
     object\<lparr>opt_tag := (case opt_tag object of None \<Rightarrow> Some ''latest'' | Some t \<Rightarrow> Some t),
            opt_platform := (case opt_platform object of None \<Rightarrow> None | Some p \<Rightarrow> Some p),
            opt_channel := (case opt_channel object of None \<Rightarrow> Some ''stable'' | Some c \<Rightarrow> Some c)\<rparr>"

text \<open>The options after the first two statements of \<^verbatim>\<open>filter\<close>.\<close>

definition filter_opts :: "'k externals \<Rightarrow> options \<Rightarrow> options" where
  "filter_opts X object =
     (let opts = defaults object in
      if truthy (opt_platform opts)
      then opts\<lparr>opt_platform :=
                  pf_detect X (case opt_platform opts of Some p \<Rightarrow> p | None \<Rightarrow> [])\<rparr>
      else opts)"

text \<open>The callback of \<^verbatim>\<open>_.filter\<close> in \<^verbatim>\<open>filter\<close>.\<close>

definition filter_callback :: "'k externals \<Rightarrow> options \<Rightarrow> Version \<Rightarrow> js_error + bool" where
  "filter_callback X opts v =
     (if opt_channel opts \<noteq> Some ''*'' \<and> Some (channel v) \<noteq> opt_channel opts then Inr False
      else if truthy (opt_platform opts) \<and>
              \<not> pf_satisfies X (case opt_platform opts of Some p \<Rightarrow> p | None \<Rightarrow> [])
                     (map p_type (platforms v))
      then Inr False
      else if opt_tag opts = Some ''latest'' then Inr True
      else sv_satisfies X (tag v) (case opt_tag opts of Some t \<Rightarrow> t | None \<Rightarrow> []))"

text \<open>
  \<^verbatim>\<open>filter(opts)\<close>. The argument is \<open>None\<close> for \<^verbatim>\<open>undefined\<close> and otherwise the caller's
  object. The first component of the result is the caller's object after the call (the
  object that \<^verbatim>\<open>_.defaults\<close> and the assignment to \<^verbatim>\<open>opts.platform\<close> wrote to); with no
  argument, the object written to is the fresh \<^verbatim>\<open>{}\<close>, that the caller never sees.
\<close>

definition Versions_filter ::
  "('k::linorder) externals \<Rightarrow> Versions \<Rightarrow> options option \<Rightarrow>
     options option \<times> (js_error + Version list)" where
  "Versions_filter X this arg =
     (let opts = filter_opts X (case arg of None \<Rightarrow> no_options | Some object \<Rightarrow> object) in
      (case arg of None \<Rightarrow> None | Some object \<Rightarrow> Some opts,
       and_then (Versions_list X this) (chain_filter (filter_callback X opts))))"

text \<open>
  \<^verbatim>\<open>resolve(opts)\<close>: its \<^verbatim>\<open>opts\<close> is the caller's object, read after \<^verbatim>\<open>filter\<close> has run, and
  \<^verbatim>\<open>undefined\<close> when there was no argument.
\<close>

definition Versions_resolve ::
  "('k::linorder) externals \<Rightarrow> Versions \<Rightarrow> options option \<Rightarrow>
     options option \<times> (js_error + Version)" where
  "Versions_resolve X this arg =
     (case Versions_filter X this arg of
        (opts, result) \<Rightarrow>
          (opts,
           and_then result (\<lambda>versions.
             (case at_index versions 0 of
                Some v \<Rightarrow> Inr v
              | None \<Rightarrow>
                  (case opts of
                     None \<Rightarrow> Inl TypeError
                   | Some object \<Rightarrow>
                       Inl (Error (''Version not found: '' @
                              (case opt_tag object of None \<Rightarrow> ''undefined'' | Some t \<Rightarrow> t))))))))"

text \<open>\<^verbatim>\<open>get(tag)\<close>\<close>

definition Versions_get ::
  "('k::linorder) externals \<Rightarrow> Versions \<Rightarrow> string \<Rightarrow> js_error + Version" where
  "Versions_get X this t =
     snd (Versions_resolve X this
            (Some \<lparr>opt_tag = Some t, opt_platform = None, opt_channel = None\<rparr>))"

text \<open>
  A channel summary of \<^verbatim>\<open>channels()\<close>. Its \<^verbatim>\<open>published_at\<close> is the number 0 at first and
  then a Date; \<^verbatim>\<open><\<close> compares the two as numbers and is false when either is NaN.
\<close>

record channel_summary =
  latest :: "string option"
  versions_count :: nat
  summary_published_at :: date

definition date_less :: "date \<Rightarrow> date \<Rightarrow> bool" where
  "date_less a b = (case a of None \<Rightarrow> False | Some x \<Rightarrow> (case b of None \<Rightarrow> False | Some y \<Rightarrow> x < y))"

text \<open>
  \<^verbatim>\<open>channels\<close> starts as the object literal \<^verbatim>\<open>{}\<close>, whose prototype is \<^verbatim>\<open>Object.prototype\<close>:
  \<^verbatim>\<open>channels[name]\<close> for one of these names, as long as the object has no such property of
  its own, is the inherited function (or, for \<^verbatim>\<open>__proto__\<close>, the prototype), which is truthy.
\<close>

definition Object_prototype :: "string list" where
  "Object_prototype =
     [''constructor'', ''__defineGetter__'', ''__defineSetter__'', ''hasOwnProperty'',
      ''__lookupGetter__'', ''__lookupSetter__'', ''isPrototypeOf'', ''propertyIsEnumerable'',
      ''toString'', ''valueOf'', ''__proto__'', ''toLocaleString'']"

text \<open>
  The body of the callback of \<^verbatim>\<open>_.each\<close> in \<^verbatim>\<open>channels\<close>, on the summary that the
  object has for the version's channel (\<open>None\<close>: it has none, and one is created): the
  count goes up, and the version becomes the latest when its date is greater.
\<close>

definition count_version :: "channel_summary option \<Rightarrow> Version \<Rightarrow> channel_summary" where
  "count_version own v =
     (let created = (case own of
                       None \<Rightarrow> \<lparr>latest = None, versions_count = 0,
                                 summary_published_at = Some 0\<rparr>
                     | Some s \<Rightarrow> s);
          counted = created\<lparr>versions_count := versions_count created + 1\<rparr>
      in if date_less (summary_published_at counted) (published_at v)
         then counted\<lparr>latest := Some (tag v), summary_published_at := published_at v\<rparr>
         else counted)"

text \<open>
  The callback itself. For an inherited name no summary is created, the increment writes
  to the inherited object, and the comparison reads its \<^verbatim>\<open>published_at\<close>, which is
  \<^verbatim>\<open>undefined\<close>: the object \<^verbatim>\<open>channels\<close> is left as it was.
\<close>

definition channels_each ::
  "(string \<rightharpoonup> channel_summary) \<Rightarrow> Version \<Rightarrow> (string \<rightharpoonup> channel_summary)" where
  "channels_each channels v =
     (if channels (channel v) = None \<and> channel v \<in> set Object_prototype then channels
      else channels(channel v \<mapsto> count_version (channels (channel v)) v))"

definition Versions_channels ::
  "('k::linorder) externals \<Rightarrow> Versions \<Rightarrow> js_error + (string \<rightharpoonup> channel_summary)" where
  "Versions_channels X this =
     and_then (Versions_list X this) (\<lambda>versions. Inr (foldl channels_each Map.empty versions))"

section \<open>The update request of Squirrel.Mac\<close>

text \<open>
  The request parameters that \<^verbatim>\<open>onUpdate\<close> reads (the routes give a platform and a version;
  the channel is \<open>None\<close> on the route without one) and the response it sends: status 204,
  or status 200 with the fields below. The \<^verbatim>\<open>url\<close> field, joined from the request's own URL,
  is left out.
\<close>

record update_request =
  params_platform :: string
  params_channel :: "string option"
  params_version :: string

record update_body =
  u_name :: string
  u_notes :: string
  u_channel :: string
  u_pub_date :: int

datatype update_response = No_updates | Update update_body

definition requires_parameter :: "string \<Rightarrow> js_error" where
  "requires_parameter p = Error (''Requires '' @ [CHR 0x22] @ p @ [CHR 0x22] @ '' parameter'')"

text \<open>The versions whose notes \<^verbatim>\<open>onUpdate\<close> merges, for the list that \<^verbatim>\<open>filter\<close> gave.\<close>

definition notesSlice :: "Version list \<Rightarrow> Version list" where
  "notesSlice versions =
     (if length versions = 1 then (case at_index versions 0 of Some v \<Rightarrow> [v] | None \<Rightarrow> [])
      else butlast versions)"

definition onUpdate ::
  "('k::linorder) externals \<Rightarrow> Versions \<Rightarrow> update_request \<Rightarrow> js_error + update_response" where
  "onUpdate X versions_of_nuts req =
     (let platform = params_platform req;
          channel = (case params_channel req of
                       None \<Rightarrow> ''*'' | Some c \<Rightarrow> if c = [] then ''*'' else c);
          tag0 = hd (split CHR ''-'' (params_version req))
      in
        if tag0 = [] then Inl (requires_parameter ''version'')
        else if platform = [] then Inl (requires_parameter ''platform'')
        else
          and_then
            (snd (Versions_filter X versions_of_nuts
                    (Some \<lparr>opt_tag = Some (''>='' @ tag0),
                           opt_platform = pf_detect X platform,
                           opt_channel = Some channel\<rparr>)))
            (\<lambda>versions.
               (case at_index versions 0 of
                  None \<Rightarrow> Inr No_updates
                | Some latest_version \<Rightarrow>
                    if tag latest_version = tag0 then Inr No_updates
                    else
                      (let releaseNotes = notes_merge X (notesSlice versions) in
                       (case published_at latest_version of
                          None \<Rightarrow> Inl RangeError
                        | Some t \<Rightarrow>
                            Inr (Update \<lparr>u_name = tag latest_version,
                                         u_notes = releaseNotes,
                                         u_channel = channel,
                                         u_pub_date = t\<rparr>))))))"

section \<open>A reference instance of the libraries\<close>

text \<open>
  To run the definitions on concrete releases, the parameters are instantiated with
  functions that agree with the libraries on the inputs that the examples below use: plain
  \<^verbatim>\<open>MAJOR.MINOR.PATCH\<close> versions ordered by precedence, ranges \<^verbatim>\<open>>=MAJOR.MINOR.PATCH\<close>, two
  regular expressions over tags of the form \<^verbatim>\<open>release-...\<close>, and Mac assets.
\<close>

definition digit_of :: "char \<Rightarrow> nat option" where
  "digit_of c =
     (let n = (of_char c :: nat) in if 48 \<le> n \<and> n \<le> 57 then Some (n - 48) else None)"

fun digits_value :: "nat \<Rightarrow> string \<Rightarrow> nat option" where
  "digits_value acc [] = Some acc"
| "digits_value acc (c # cs) =
     (case digit_of c of None \<Rightarrow> None | Some d \<Rightarrow> digits_value (10 * acc + d) cs)"

definition numeric_identifier :: "string \<Rightarrow> nat option" where
  "numeric_identifier s =
     (if s = [] then None
      else if hd s = CHR ''0'' \<and> length s > 1 then None
      else digits_value 0 s)"

definition ref_prec :: "string \<Rightarrow> (nat \<times> nat \<times> nat) option" where
  "ref_prec s =
     (case map numeric_identifier (split CHR ''.'' s) of
        [Some major, Some minor, Some patch] \<Rightarrow> Some (major, minor, patch)
      | _ \<Rightarrow> None)"

definition ref_satisfies :: "string \<Rightarrow> string \<Rightarrow> js_error + bool" where
  "ref_satisfies v r =
     (if take 2 r = ''>='' then
        (case ref_prec (drop 2 r) of
           None \<Rightarrow> Inr False
         | Some lo \<Rightarrow> (case ref_prec v of None \<Rightarrow> Inl InvalidVersion | Some x \<Rightarrow> Inr (lo \<le> x)))
      else Inr False)"

definition ref_RegExp :: "string \<Rightarrow> regexp option" where
  "ref_RegExp src =
     (if src = ''^release-(?<version>.*)$'' then
        Some (\<lambda>s. if take 8 s = ''release-''
                   then Some \<lparr>m_length = 2, m_groups = Some [''version'' \<mapsto> drop 8 s]\<rparr>
                   else None)
      else if src = ''^release-'' then
        Some (\<lambda>s. if take 8 s = ''release-''
                   then Some \<lparr>m_length = 1, m_groups = None\<rparr>
                   else None)
      else None)"

definition ref_detect :: "string \<Rightarrow> string option" where
  "ref_detect name =
     (if name \<in> set [''osx'', ''osx_64'', ''app-darwin.dmg''] then Some ''osx_64'' else None)"

text \<open>
  Modelled from the spec: \<^verbatim>\<open>notes.merge\<close> of \<^verbatim>\<open>utils/notes\<close>, which is not among the sources.
  The release-notes merge concatenates the notes of the versions it is given, in their
  order.
\<close>

definition ref_notes_merge :: "Version list \<Rightarrow> string" where
  "ref_notes_merge versions = concat (map notes versions)"

definition ref_externals :: "(nat \<times> nat \<times> nat) externals" where
  "ref_externals =
     \<lparr>RegExp = ref_RegExp, sv_prec = ref_prec, sv_satisfies = ref_satisfies,
      pf_detect = ref_detect, pf_satisfies = (\<lambda>p available. p \<in> set available),
      notes_merge = ref_notes_merge\<rparr>"

section \<open>Notions of the specification and example catalogs\<close>

text \<open>One tag is semver-greater than or semver-equal to another: both parse, and the order.\<close>

definition newer_or_equal :: "('k::linorder) externals \<Rightarrow> string \<Rightarrow> string \<Rightarrow> bool" where
  "newer_or_equal X a b =
     (case sv_prec X a of
        None \<Rightarrow> False
      | Some x \<Rightarrow> (case sv_prec X b of None \<Rightarrow> False | Some y \<Rightarrow> y \<le> x))"

text \<open>The requested tag, channel and platform: the caller's, or else the default.\<close>

definition requested_tag :: "options \<Rightarrow> string" where
  "requested_tag object = (case opt_tag object of None \<Rightarrow> ''latest'' | Some t \<Rightarrow> t)"

definition requested_channel :: "options \<Rightarrow> string" where
  "requested_channel object = (case opt_channel object of None \<Rightarrow> ''stable'' | Some c \<Rightarrow> c)"

definition requested_platform :: "'k externals \<Rightarrow> options \<Rightarrow> string option" where
  "requested_platform X object =
     (case opt_platform object of
        None \<Rightarrow> None
      | Some p \<Rightarrow> if p = [] then Some [] else pf_detect X p)"

text \<open>
  A Version passes the channel and the platform conditions of a request; and the range of
  the request is one that \<^verbatim>\<open>semver.satisfies\<close> throws on for the Version's tag (it is not
  called for the tag \<^verbatim>\<open>latest\<close>).
\<close>

definition channel_platform_ok :: "'k externals \<Rightarrow> options \<Rightarrow> Version \<Rightarrow> bool" where
  "channel_platform_ok X object v =
     ((requested_channel object = ''*'' \<or> channel v = requested_channel object) \<and>
      (case requested_platform X object of
         None \<Rightarrow> True
       | Some p \<Rightarrow> p = [] \<or> pf_satisfies X p (map p_type (platforms v))))"

definition range_throws :: "'k externals \<Rightarrow> options \<Rightarrow> Version \<Rightarrow> bool" where
  "range_throws X object v =
     (requested_tag object \<noteq> ''latest'' \<and> isl (sv_satisfies X (tag v) (requested_tag object)))"

text \<open>
  The time of a version when it is a valid date after the epoch, and 0 otherwise; the
  greatest such time in a list of versions; and the tag of the first version of the list
  published at that time, when that time is after the epoch.
\<close>

definition time_after_epoch :: "Version \<Rightarrow> int" where
  "time_after_epoch v = (case published_at v of None \<Rightarrow> 0 | Some t \<Rightarrow> max 0 t)"

fun newest_time :: "Version list \<Rightarrow> int" where
  "newest_time [] = 0"
| "newest_time (v # vs) = max (time_after_epoch v) (newest_time vs)"

definition expected_latest :: "Version list \<Rightarrow> string option" where
  "expected_latest vs =
     (if newest_time vs = 0 then None
      else map_option tag (find (\<lambda>v. published_at v = Some (newest_time vs)) vs))"

text \<open>The summary that the result of \<^verbatim>\<open>channels()\<close> has for a channel.\<close>

definition summary_of ::
  "js_error + (string \<rightharpoonup> channel_summary) \<Rightarrow> string \<Rightarrow> js_error + channel_summary option" where
  "summary_of result c = and_then result (\<lambda>channels. Inr (channels c))"

text \<open>
  A channel's summary for the versions of that channel, in the order of \<^verbatim>\<open>list()\<close>: none
  when there is no such version.
\<close>

definition summarises :: "channel_summary option \<Rightarrow> Version list \<Rightarrow> bool" where
  "summarises own cs =
     (if cs = [] then own = None
      else own = Some \<lparr>latest = expected_latest cs, versions_count = length cs,
                        summary_published_at = Some (newest_time cs)\<rparr>)"

text \<open>A published release with one Mac asset, and catalogs made of such releases.\<close>

definition dmg :: raw_asset where
  "dmg = \<lparr>asset_id = ''7'', asset_name = ''app-darwin.dmg'', asset_size = 1048576,
          asset_content_type = ''application/x-apple-diskimage'', download_count = 3\<rparr>"

definition published :: "string \<Rightarrow> string \<Rightarrow> int \<Rightarrow> release" where
  "published t b time =
     \<lparr>tag_name = t, draft = False, body = Some b, release_published_at = Some time,
      assets = [dmg]\<rparr>"

definition mac :: platform_asset where
  "mac = \<lparr>p_id = ''7'', p_type = ''osx_64'', filename = ''app-darwin.dmg'', p_size = 1048576,
          p_content_type = ''application/x-apple-diskimage'', raw = dmg\<rparr>"

definition catalog_three :: Versions where
  "catalog_three =
     \<lparr>backend_releases =
        [published ''v1.0.0'' ''first'' 100, published ''v2.0.0-beta.1'' ''second'' 300,
         published ''v1.0.0-beta'' ''third'' 200],
      tagNameFilter = None\<rparr>"

definition catalog_nightly :: Versions where
  "catalog_nightly =
     \<lparr>backend_releases = [published ''nightly'' ''built from main'' 100], tagNameFilter = None\<rparr>"

definition listed :: "string \<Rightarrow> string \<Rightarrow> string \<Rightarrow> string \<Rightarrow> int \<Rightarrow> Version" where
  "listed v t c n time =
     \<lparr>version = v, tag = t, channel = c, notes = n, published_at = Some time,
      platforms = [mac]\<rparr>"

definition catalog_nightly_and_release :: Versions where
  "catalog_nightly_and_release =
     \<lparr>backend_releases =
        [published ''nightly'' ''built from main'' 100, published ''v1.0.0'' ''first'' 50],
      tagNameFilter = None\<rparr>"

definition catalog_epoch :: Versions where
  "catalog_epoch =
     \<lparr>backend_releases = [published ''v1.0.0'' ''first'' 0], tagNameFilter = None\<rparr>"

definition catalog_update :: Versions where
  "catalog_update =
     \<lparr>backend_releases =
        [published ''v2.0.0'' ''Notes of 2.0.0. '' 300,
         published ''v1.5.0'' ''Notes of 1.5.0. '' 200],
      tagNameFilter = None\<rparr>"

definition catalog_beta :: Versions where
  "catalog_beta =
     \<lparr>backend_releases = [published ''v2.0.0-beta.1'' ''second'' 300], tagNameFilter = None\<rparr>"

section \<open>Strings\<close>

lemma split_not_Nil: "split c s \<noteq> []"
  by (induction s) (auto split: list.splits)

lemma split_unfold:
  "split c s = takeWhile (\<lambda>x. x \<noteq> c) s #
     (if c \<in> set s then split c (tl (dropWhile (\<lambda>x. x \<noteq> c) s)) else [])"
  by (induction s) (auto split: list.splits)

lemma hd_split: "hd (split c s) = takeWhile (\<lambda>x. x \<noteq> c) s"
  by (subst split_unfold) simp

lemma at_index_split_1:
  "at_index (split c s) (Suc 0) =
     (if c \<in> set s then Some (takeWhile (\<lambda>x. x \<noteq> c) (tl (dropWhile (\<lambda>x. x \<noteq> c) s)))
      else None)"
proof (cases "c \<in> set s")
  case True
  have "split c s = takeWhile (\<lambda>x. x \<noteq> c) s # split c (tl (dropWhile (\<lambda>x. x \<noteq> c) s))"
    using True by (subst split_unfold) simp
  moreover have "at_index (split c r) 0 = Some (takeWhile (\<lambda>x. x \<noteq> c) r)" for r
    by (subst split_unfold) simp
  ultimately show ?thesis using True by simp
next
  case False
  then show ?thesis by (subst split_unfold) simp
qed

lemma takeWhile_takeWhile_conj:
  "takeWhile P (takeWhile Q xs) = takeWhile (\<lambda>x. P x \<and> Q x) xs"
  by (induction xs) auto

lemma getSuffix_unfold:
  "getSuffix s =
     (if CHR ''-'' \<notin> set s then ''stable''
      else (let r = tl (dropWhile (\<lambda>x. x \<noteq> CHR ''-'') s) in
            if r = [] \<or> hd r = CHR ''-'' then ''stable''
            else takeWhile (\<lambda>x. x \<noteq> CHR ''.'' \<and> x \<noteq> CHR ''-'') r))"
  by (auto simp: getSuffix_def at_index_split_1 hd_split Let_def takeWhile_takeWhile_conj
        takeWhile_eq_Nil_iff conj_commute)

lemma and_then_Inr_iff:
  "and_then r f = Inr y \<longleftrightarrow> (\<exists>x. r = Inr x \<and> f x = Inr y)"
  by (cases r) auto

lemma and_then_Inl_iff:
  "and_then r f = Inl e \<longleftrightarrow> r = Inl e \<or> (\<exists>x. r = Inr x \<and> f x = Inl e)"
  by (cases r) auto

section \<open>normalizeTag\<close>


lemma normalizeTag_group_absent:
  assumes "f = Some src" "src \<noteq> []" "RegExp X src = Some regex" "regex t = Some m"
    and "groups_version m = None"
  shows "normalizeTag X t f = Inr t"
  using assms by (simp add: normalizeTag_def)

lemma normalizeTag_no_match:
  assumes "f = Some src" "src \<noteq> []" "RegExp X src = Some regex" "regex t = None"
  shows "normalizeTag X t f = Inl TypeError"
  using assms by (simp add: normalizeTag_def)





section \<open>extractChannel\<close>

text \<open>
  Claim C7, as stated, fails: the channel of the tag \<^verbatim>\<open>v1.0.0-.1\<close> is the empty string.
\<close>

theorem extractChannel_empty_counterexample:
  "extractChannel ref_externals ''v1.0.0-.1'' None = Inr []"
  by (simp add: extractChannel_def getSuffix_def)

text \<open>
  Claim C7, amended. Without a filter the channel is \<^verbatim>\<open>getSuffix\<close> of the tag; with a filter
  that matches, it is \<^verbatim>\<open>getSuffix\<close> of the group \<^verbatim>\<open>version\<close>, and \<^verbatim>\<open>stable\<close> when the match has
  no such group. \<^verbatim>\<open>getSuffix\<close> gives \<^verbatim>\<open>stable\<close> when the string has no dash, when nothing
  follows its first dash, and when a second dash follows it at once; otherwise it gives the
  text after the first dash up to the next dot or dash, which is empty exactly when a dot
  follows the first dash at once.
\<close>

theorem extractChannel_token:
  "(\<not> truthy f \<longrightarrow> extractChannel X t f = Inr (getSuffix t)) \<and>
   (\<forall>src regex m. f = Some src \<and> src \<noteq> [] \<and> RegExp X src = Some regex \<and> regex t = Some m \<longrightarrow>
      extractChannel X t f =
        Inr (case groups_version m of None \<Rightarrow> ''stable'' | Some v \<Rightarrow> getSuffix v)) \<and>
   getSuffix s =
     (if CHR ''-'' \<notin> set s then ''stable''
      else (let r = tl (dropWhile (\<lambda>x. x \<noteq> CHR ''-'') s) in
            if r = [] \<or> hd r = CHR ''-'' then ''stable''
            else takeWhile (\<lambda>x. x \<noteq> CHR ''.'' \<and> x \<noteq> CHR ''-'') r)) \<and>
   (getSuffix s = [] \<longleftrightarrow>
      CHR ''-'' \<in> set s \<and> take 1 (tl (dropWhile (\<lambda>x. x \<noteq> CHR ''-'') s)) = ''.'')"
proof (intro conjI allI impI)
  show "extractChannel X t f = Inr (getSuffix t)" if "\<not> truthy f"
    using that by (simp add: extractChannel_def)
next
  fix src regex m
  assume a: "f = Some src \<and> src \<noteq> [] \<and> RegExp X src = Some regex \<and> regex t = Some m"
  have "getSuffix [] = ''stable''" by (simp add: getSuffix_def)
  then show "extractChannel X t f =
      Inr (case groups_version m of None \<Rightarrow> ''stable'' | Some v \<Rightarrow> getSuffix v)"
    using a by (auto simp: extractChannel_def split: option.splits)
next
  show "getSuffix s =
     (if CHR ''-'' \<notin> set s then ''stable''
      else (let r = tl (dropWhile (\<lambda>x. x \<noteq> CHR ''-'') s) in
            if r = [] \<or> hd r = CHR ''-'' then ''stable''
            else takeWhile (\<lambda>x. x \<noteq> CHR ''.'' \<and> x \<noteq> CHR ''-'') r))"
    by (rule getSuffix_unfold)
next
  show "getSuffix s = [] \<longleftrightarrow>
      CHR ''-'' \<in> set s \<and> take 1 (tl (dropWhile (\<lambda>x. x \<noteq> CHR ''-'') s)) = ''.''"
  proof (cases "tl (dropWhile (\<lambda>x. x \<noteq> CHR ''-'') s)")
    case Nil
    then show ?thesis by (simp add: getSuffix_unfold)
  next
    case (Cons a r)
    then show ?thesis by (auto simp: getSuffix_unfold)
  qed
qed

theorem extractChannel_token_witness:
  "extractChannel ref_externals ''v2.0.0-beta.1'' None = Inr ''beta'' \<and>
   extractChannel ref_externals ''release-2.0.0-rc.1'' (Some ''^release-(?<version>.*)$'') =
     Inr ''rc'' \<and>
   getSuffix ''2.0.0-rc.1'' = ''rc''"
proof -
  let ?regex = "\<lambda>s. if take 8 s = ''release-''
                     then Some \<lparr>m_length = 2, m_groups = Some [''version'' \<mapsto> drop 8 s]\<rparr>
                     else None"
  have c: "RegExp ref_externals ''^release-(?<version>.*)$'' = Some ?regex"
    by (simp add: ref_externals_def ref_RegExp_def)
  have m: "?regex ''release-2.0.0-rc.1'' =
      Some \<lparr>m_length = 2, m_groups = Some [''version'' \<mapsto> ''2.0.0-rc.1'']\<rparr>"
    by simp
  have g: "groups_version \<lparr>m_length = 2, m_groups = Some [''version'' \<mapsto> ''2.0.0-rc.1'']\<rparr> =
      Some ''2.0.0-rc.1''"
    by (simp add: groups_version_def)
  have s: "getSuffix ''2.0.0-rc.1'' = ''rc''"
    using extractChannel_token [of None ref_externals "''x''" "''2.0.0-rc.1''"] by simp
  have b: "getSuffix ''v2.0.0-beta.1'' = ''beta''"
    using extractChannel_token [of None ref_externals "''x''" "''v2.0.0-beta.1''"] by simp
  have 1: "extractChannel ref_externals ''v2.0.0-beta.1'' None = Inr ''beta''"
    using extractChannel_token [of None ref_externals "''v2.0.0-beta.1''" "''x''"] b by simp
  have 2: "extractChannel ref_externals ''release-2.0.0-rc.1''
      (Some ''^release-(?<version>.*)$'') = Inr ''rc''"
    using extractChannel_token [of "Some ''^release-(?<version>.*)$''" ref_externals
        "''release-2.0.0-rc.1''" "''x''"] c m g s
    by simp
  from 1 2 s show ?thesis by simp
qed

section \<open>Evaluating the example catalogs\<close>

lemma ref_externals_sel:
  "RegExp ref_externals = ref_RegExp"
  "sv_prec ref_externals = ref_prec"
  "sv_satisfies ref_externals = ref_satisfies"
  "pf_detect ref_externals = ref_detect"
  "pf_satisfies ref_externals = (\<lambda>p available. p \<in> set available)"
  "notes_merge ref_externals = ref_notes_merge"
  by (simp_all add: ref_externals_def)

lemmas catalog_defs =
  Versions_list_def normalized_def catalog_three_def catalog_nightly_def
  catalog_nightly_and_release_def catalog_epoch_def catalog_update_def catalog_beta_def
  published_def
  listed_def normalizeVersion_def normalizeTag_def extractChannel_def getSuffix_def
  asset_platform_def ref_externals_sel ref_detect_def dmg_def mac_def compareVersions_def
  semver_gt_def semver_lt_def ref_prec_def numeric_identifier_def digit_of_def

lemmas filter_defs =
  Versions_filter_def filter_opts_def defaults_def filter_callback_def Let_def listed_def
  mac_def ref_externals_sel ref_detect_def ref_satisfies_def ref_prec_def
  numeric_identifier_def digit_of_def

lemma catalog_three_normalized:
  "normalized ref_externals catalog_three =
     Inr [listed ''1.0.0'' ''1.0.0'' ''stable'' ''first'' 100,
          listed ''2.0.0-beta.1'' ''2.0.0'' ''beta'' ''second'' 300,
          listed ''1.0.0-beta'' ''1.0.0'' ''beta'' ''third'' 200]"
  by (simp add: catalog_defs)

lemma catalog_three_list:
  "Versions_list ref_externals catalog_three =
     Inr [listed ''2.0.0-beta.1'' ''2.0.0'' ''beta'' ''second'' 300,
          listed ''1.0.0'' ''1.0.0'' ''stable'' ''first'' 100,
          listed ''1.0.0-beta'' ''1.0.0'' ''beta'' ''third'' 200]"
  by (simp add: catalog_defs)

lemma catalog_nightly_normalized:
  "normalized ref_externals catalog_nightly =
     Inr [listed ''nightly'' ''nightly'' ''stable'' ''built from main'' 100]"
  by (simp add: catalog_defs)

lemma catalog_nightly_list:
  "Versions_list ref_externals catalog_nightly =
     Inr [listed ''nightly'' ''nightly'' ''stable'' ''built from main'' 100]"
  by (simp add: catalog_defs)

lemma catalog_nightly_and_release_normalized:
  "normalized ref_externals catalog_nightly_and_release =
     Inr [listed ''nightly'' ''nightly'' ''stable'' ''built from main'' 100,
          listed ''1.0.0'' ''1.0.0'' ''stable'' ''first'' 50]"
  by (simp add: catalog_defs)

lemma ref_prec_examples:
  "sv_prec ref_externals ''nightly'' = None"
  "sv_prec ref_externals ''1.0.0'' = Some (1, 0, 0)"
  "sv_prec ref_externals ''2.0.0'' = Some (2, 0, 0)"
  by (simp_all add: catalog_defs)

lemma catalog_update_list:
  "Versions_list ref_externals catalog_update =
     Inr [listed ''2.0.0'' ''2.0.0'' ''stable'' ''Notes of 2.0.0. '' 300,
          listed ''1.5.0'' ''1.5.0'' ''stable'' ''Notes of 1.5.0. '' 200]"
  by (simp add: catalog_defs)

lemma catalog_epoch_list:
  "Versions_list ref_externals catalog_epoch =
     Inr [listed ''1.0.0'' ''1.0.0'' ''stable'' ''first'' 0]"
  by (simp add: catalog_defs)

lemma catalog_beta_list:
  "Versions_list ref_externals catalog_beta =
     Inr [listed ''2.0.0-beta.1'' ''2.0.0'' ''beta'' ''second'' 300]"
  by (simp add: catalog_defs)

section \<open>Sorting with compareVersions\<close>

lemma compareVersions_Inr:
  assumes "compareVersions X a b = Inr c"
  shows "\<exists>x y. sv_prec X (tag a) = Some x \<and> sv_prec X (tag b) = Some y \<and>
           (c \<le> 0 \<longleftrightarrow> y \<le> x)"
  using assms
  by (auto simp: compareVersions_def semver_gt_def semver_lt_def and_then_Inr_iff
           split: option.splits if_splits)

lemma compareVersions_Inl:
  "compareVersions X a b = Inl e \<longleftrightarrow>
     e = InvalidVersion \<and> (sv_prec X (tag a) = None \<or> sv_prec X (tag b) = None)"
  by (auto simp: compareVersions_def semver_gt_def semver_lt_def and_then_Inl_iff
           split: option.splits if_splits)

lemma newer_or_equal_trans:
  "newer_or_equal X a b \<Longrightarrow> newer_or_equal X b c \<Longrightarrow> newer_or_equal X a c"
  by (auto simp: newer_or_equal_def split: option.splits)

lemma sort_insert_set:
  "sort_insert cmp x ys = Inr zs \<Longrightarrow> set zs = insert x (set ys)"
  by (induction ys arbitrary: zs) (auto simp: and_then_Inr_iff split: if_splits)

lemma sort_insert_length:
  "sort_insert cmp x ys = Inr zs \<Longrightarrow> length zs = Suc (length ys)"
  by (induction ys arbitrary: zs) (auto simp: and_then_Inr_iff split: if_splits)

lemma sort_insert_sorted:
  assumes "sort_insert (compareVersions X) x ys = Inr zs"
    and "sorted_wrt (\<lambda>a b. newer_or_equal X (tag a) (tag b)) ys"
  shows "sorted_wrt (\<lambda>a b. newer_or_equal X (tag a) (tag b)) zs"
  using assms
proof (induction ys arbitrary: zs)
  case Nil
  then show ?case by auto
next
  case (Cons y ys)
  from Cons.prems(1) obtain c where c: "compareVersions X x y = Inr c"
    by (auto simp: and_then_Inr_iff)
  from compareVersions_Inr [OF c] obtain kx ky where
    k: "sv_prec X (tag x) = Some kx" "sv_prec X (tag y) = Some ky" "c \<le> 0 \<longleftrightarrow> ky \<le> kx"
    by blast
  show ?case
  proof (cases "c \<le> 0")
    case True
    then have zs: "zs = x # y # ys" using Cons.prems(1) c by simp
    have xy: "newer_or_equal X (tag x) (tag y)"
      using k True by (simp add: newer_or_equal_def)
    then have "\<forall>z\<in>set ys. newer_or_equal X (tag x) (tag z)"
      using Cons.prems(2) by (auto intro: newer_or_equal_trans)
    then show ?thesis using zs xy Cons.prems(2) by simp
  next
    case False
    then obtain zs' where zs': "sort_insert (compareVersions X) x ys = Inr zs'" "zs = y # zs'"
      using Cons.prems(1) c by (auto simp: and_then_Inr_iff)
    have yx: "newer_or_equal X (tag y) (tag x)"
      using k False by (simp add: newer_or_equal_def)
    have "sorted_wrt (\<lambda>a b. newer_or_equal X (tag a) (tag b)) zs'"
      using Cons.IH [OF zs'(1)] Cons.prems(2) by simp
    moreover have "\<forall>z\<in>set zs'. newer_or_equal X (tag y) (tag z)"
      using sort_insert_set [OF zs'(1)] yx Cons.prems(2) by auto
    ultimately show ?thesis using zs'(2) by simp
  qed
qed

lemma sort_insert_stable:
  assumes "sort_insert (compareVersions X) x ys = Inr zs"
  shows "filter (\<lambda>v. sv_prec X (tag v) = k) zs = filter (\<lambda>v. sv_prec X (tag v) = k) (x # ys)"
  using assms
proof (induction ys arbitrary: zs)
  case Nil
  then show ?case by auto
next
  case (Cons y ys)
  from Cons.prems obtain c where c: "compareVersions X x y = Inr c"
    by (auto simp: and_then_Inr_iff)
  from compareVersions_Inr [OF c] obtain kx ky where
    k: "sv_prec X (tag x) = Some kx" "sv_prec X (tag y) = Some ky" "c \<le> 0 \<longleftrightarrow> ky \<le> kx"
    by blast
  show ?case
  proof (cases "c \<le> 0")
    case True
    then show ?thesis using Cons.prems c by simp
  next
    case False
    then obtain zs' where zs': "sort_insert (compareVersions X) x ys = Inr zs'" "zs = y # zs'"
      using Cons.prems c by (auto simp: and_then_Inr_iff)
    have "kx \<noteq> ky" using k False by auto
    then show ?thesis using Cons.IH [OF zs'(1)] zs'(2) k by auto
  qed
qed

lemma array_sort_set:
  "array_sort cmp xs = Inr ys \<Longrightarrow> set ys = set xs \<and> length ys = length xs"
proof (induction xs arbitrary: ys)
  case Nil
  then show ?case by auto
next
  case (Cons x xs)
  from Cons.prems obtain ys' where
    ys': "array_sort cmp xs = Inr ys'" "sort_insert cmp x ys' = Inr ys"
    by (auto simp: and_then_Inr_iff)
  from Cons.IH [OF ys'(1)] sort_insert_set [OF ys'(2)] sort_insert_length [OF ys'(2)]
  show ?case by simp
qed

lemma array_sort_sorted:
  "array_sort (compareVersions X) xs = Inr ys \<Longrightarrow>
     sorted_wrt (\<lambda>a b. newer_or_equal X (tag a) (tag b)) ys"
  by (induction xs arbitrary: ys) (auto simp: and_then_Inr_iff intro: sort_insert_sorted)

lemma array_sort_stable:
  "array_sort (compareVersions X) xs = Inr ys \<Longrightarrow>
     filter (\<lambda>v. sv_prec X (tag v) = k) ys = filter (\<lambda>v. sv_prec X (tag v) = k) xs"
  by (induction xs arbitrary: ys) (auto simp: and_then_Inr_iff dest!: sort_insert_stable [where k = k])

lemma sort_insert_total:
  "\<forall>v\<in>set (x # ys). sv_prec X (tag v) \<noteq> None \<Longrightarrow> \<exists>zs. sort_insert (compareVersions X) x ys = Inr zs"
proof (induction ys)
  case Nil
  then show ?case by simp
next
  case (Cons y ys)
  then obtain c where "compareVersions X x y = Inr c"
    by (cases "compareVersions X x y") (auto simp: compareVersions_Inl)
  then show ?case using Cons by (auto simp: and_then_Inr_iff)
qed

lemma array_sort_total:
  "\<forall>v\<in>set xs. sv_prec X (tag v) \<noteq> None \<Longrightarrow> \<exists>ys. array_sort (compareVersions X) xs = Inr ys"
proof (induction xs)
  case Nil
  then show ?case by simp
next
  case (Cons x xs)
  then obtain ys where ys: "array_sort (compareVersions X) xs = Inr ys" by auto
  then have "set ys = set xs" by (simp add: array_sort_set)
  then have "\<forall>v\<in>set (x # ys). sv_prec X (tag v) \<noteq> None" using Cons.prems by simp
  from sort_insert_total [OF this] show ?case using ys by simp
qed


lemma sort_insert_Inl:
  "sort_insert (compareVersions X) x ys = Inl e \<Longrightarrow> e = InvalidVersion"
  by (induction ys) (auto simp: and_then_Inl_iff compareVersions_Inl split: if_splits)

lemma array_sort_Inl:
  "array_sort (compareVersions X) xs = Inl e \<Longrightarrow> e = InvalidVersion"
  by (induction xs) (auto simp: and_then_Inl_iff dest: sort_insert_Inl)

lemma sort_insert_Inr_valid:
  "sort_insert (compareVersions X) x (y # ys) = Inr zs \<Longrightarrow>
     sv_prec X (tag x) \<noteq> None \<and> sv_prec X (tag y) \<noteq> None"
  by (auto simp: and_then_Inr_iff dest!: compareVersions_Inr)

lemma array_sort_Inr_valid:
  "array_sort (compareVersions X) xs = Inr ys \<Longrightarrow> 2 \<le> length xs \<Longrightarrow>
     \<forall>v\<in>set xs. sv_prec X (tag v) \<noteq> None"
proof (induction xs arbitrary: ys)
  case Nil
  then show ?case by simp
next
  case (Cons x xs)
  from Cons.prems(1) obtain ys' where
    ys': "array_sort (compareVersions X) xs = Inr ys'"
         "sort_insert (compareVersions X) x ys' = Inr ys"
    by (auto simp: and_then_Inr_iff)
  from Cons.prems(2) obtain y rest where xs: "xs = y # rest" by (cases xs) auto
  show ?case
  proof (cases rest)
    case Nil
    with xs ys' have "ys' = [y]" by simp
    with ys'(2) have "sort_insert (compareVersions X) x (y # []) = Inr ys" by simp
    from sort_insert_Inr_valid [OF this] xs Nil show ?thesis by simp
  next
    case (Cons z rest')
    with xs have "2 \<le> length xs" by simp
    from Cons.IH [OF ys'(1) this] have valid: "\<forall>v\<in>set xs. sv_prec X (tag v) \<noteq> None" .
    from array_sort_set [OF ys'(1)] xs obtain y' rest'' where "ys' = y' # rest''"
      by (cases ys') auto
    with ys'(2) have "sort_insert (compareVersions X) x (y' # rest'') = Inr ys" by simp
    from sort_insert_Inr_valid [OF this] have "sv_prec X (tag x) \<noteq> None" by simp
    with valid show ?thesis by simp
  qed
qed

lemma array_sort_fails:
  assumes "2 \<le> length xs" and "\<exists>v\<in>set xs. sv_prec X (tag v) = None"
  shows "array_sort (compareVersions X) xs = Inl InvalidVersion"
proof (cases "array_sort (compareVersions X) xs")
  case (Inl e)
  then show ?thesis using array_sort_Inl [OF Inl] by simp
next
  case (Inr ys)
  from array_sort_Inr_valid [OF Inr assms(1)] assms(2) show ?thesis by blast
qed

lemma array_sort_short:
  "length xs \<le> 1 \<Longrightarrow> array_sort cmp xs = Inr xs"
  by (cases xs) (auto simp: le_Suc_eq)


section \<open>list()\<close>

text \<open>
  Claim C2. Whenever \<^verbatim>\<open>list()\<close> returns, its output is sorted newest first: every Version
  placed before another has a semver-greater or semver-equal tag; and the Versions of each
  precedence are in the order they have in the backend's release sequence (the normalised
  releases, \<open>input\<close>). It does return when every tag of the normalised releases parses.
\<close>

theorem Versions_list_sorted_stable:
  assumes "normalized X this = Inr input"
  shows "(\<forall>vs. Versions_list X this = Inr vs \<longrightarrow>
            sorted_wrt (\<lambda>a b. newer_or_equal X (tag a) (tag b)) vs \<and>
            (\<forall>k. filter (\<lambda>v. sv_prec X (tag v) = k) vs =
                 filter (\<lambda>v. sv_prec X (tag v) = k) input)) \<and>
         ((\<forall>v\<in>set input. sv_prec X (tag v) \<noteq> None) \<longrightarrow>
            (\<exists>vs. Versions_list X this = Inr vs))"
  using assms
  by (auto simp: Versions_list_def array_sort_sorted array_sort_stable
        intro: array_sort_total [simplified])

theorem Versions_list_sorted_stable_witness:
  "Versions_list ref_externals catalog_three =
     Inr [listed ''2.0.0-beta.1'' ''2.0.0'' ''beta'' ''second'' 300,
          listed ''1.0.0'' ''1.0.0'' ''stable'' ''first'' 100,
          listed ''1.0.0-beta'' ''1.0.0'' ''beta'' ''third'' 200] \<and>
   sorted_wrt (\<lambda>a b. newer_or_equal ref_externals (tag a) (tag b))
     [listed ''2.0.0-beta.1'' ''2.0.0'' ''beta'' ''second'' 300,
      listed ''1.0.0'' ''1.0.0'' ''stable'' ''first'' 100,
      listed ''1.0.0-beta'' ''1.0.0'' ''beta'' ''third'' 200] \<and>
   filter (\<lambda>v. sv_prec ref_externals (tag v) = Some (1, 0, 0))
     [listed ''2.0.0-beta.1'' ''2.0.0'' ''beta'' ''second'' 300,
      listed ''1.0.0'' ''1.0.0'' ''stable'' ''first'' 100,
      listed ''1.0.0-beta'' ''1.0.0'' ''beta'' ''third'' 200] =
   filter (\<lambda>v. sv_prec ref_externals (tag v) = Some (1, 0, 0))
     [listed ''1.0.0'' ''1.0.0'' ''stable'' ''first'' 100,
      listed ''2.0.0-beta.1'' ''2.0.0'' ''beta'' ''second'' 300,
      listed ''1.0.0-beta'' ''1.0.0'' ''beta'' ''third'' 200]"
  using Versions_list_sorted_stable [OF catalog_three_normalized] catalog_three_list
  by blast

text \<open>
  Claim C9, as stated, fails: a catalog whose only release has the tag \<^verbatim>\<open>nightly\<close>, which
  is no semantic version, is listed without an error, since sorting an array of one
  element never calls the comparator.
\<close>

theorem Versions_list_malformed_counterexample:
  "sv_prec ref_externals ''nightly'' = None \<and>
   Versions_list ref_externals catalog_nightly =
     Inr [listed ''nightly'' ''nightly'' ''stable'' ''built from main'' 100]"
  by (simp add: catalog_defs)

text \<open>
  Claim C9, amended. When the releases normalise to at least two Versions, one of which
  has a tag that does not parse as a semantic version, \<^verbatim>\<open>list()\<close> fails with the
  comparator's error. When they normalise to a single Version, \<^verbatim>\<open>list()\<close> returns it,
  whatever its tag. Whenever \<^verbatim>\<open>list()\<close> returns, its output has the normalised Versions and
  no others: none is dropped.
\<close>

theorem Versions_list_malformed_tag:
  assumes "normalized X this = Inr input"
    and "\<exists>v\<in>set input. sv_prec X (tag v) = None"
  shows "(2 \<le> length input \<longrightarrow> Versions_list X this = Inl InvalidVersion) \<and>
         (length input \<le> 1 \<longrightarrow> Versions_list X this = Inr input) \<and>
         (\<forall>vs. Versions_list X this = Inr vs \<longrightarrow>
            set vs = set input \<and> length vs = length input)"
  using assms
  by (auto simp: Versions_list_def array_sort_fails array_sort_short dest: array_sort_set)

theorem Versions_list_malformed_tag_witness:
  "Versions_list ref_externals catalog_nightly_and_release = Inl InvalidVersion \<and>
   Versions_list ref_externals catalog_nightly =
     Inr [listed ''nightly'' ''nightly'' ''stable'' ''built from main'' 100]"
proof -
  have bad: "sv_prec ref_externals (tag (listed ''nightly'' ''nightly'' ''stable''
      ''built from main'' 100)) = None"
    by (simp add: listed_def ref_prec_examples)
  have "Versions_list ref_externals catalog_nightly_and_release = Inl InvalidVersion"
    using Versions_list_malformed_tag [OF catalog_nightly_and_release_normalized] bad
    by simp
  moreover have "Versions_list ref_externals catalog_nightly =
      Inr [listed ''nightly'' ''nightly'' ''stable'' ''built from main'' 100]"
    using Versions_list_malformed_tag [OF catalog_nightly_normalized] bad
    by simp
  ultimately show ?thesis by simp
qed

section \<open>filter(opts)\<close>

lemma chain_filter_Inr:
  "\<forall>x\<in>set xs. \<exists>b. p x = Inr b \<Longrightarrow>
     chain_filter p xs = Inr (filter (\<lambda>x. p x = Inr True) xs)"
  by (induction xs) auto

lemma filter_opts_fields:
  "filter_opts X object =
     \<lparr>opt_tag = Some (requested_tag object),
      opt_platform = requested_platform X object,
      opt_channel = Some (requested_channel object)\<rparr>"
  by (cases object)
     (auto simp: filter_opts_def defaults_def requested_tag_def requested_channel_def
        requested_platform_def Let_def split: option.splits)

lemma filter_callback_unfold:
  "filter_callback X (filter_opts X object) v =
     (if \<not> (requested_channel object = ''*'' \<or> channel v = requested_channel object)
      then Inr False
      else if \<not> (case requested_platform X object of
                    None \<Rightarrow> True
                  | Some p \<Rightarrow> p = [] \<or> pf_satisfies X p (map p_type (platforms v)))
      then Inr False
      else if requested_tag object = ''latest'' then Inr True
      else sv_satisfies X (tag v) (requested_tag object))"
  by (auto simp: filter_callback_def filter_opts_fields split: option.splits)

lemma chain_filter_find:
  "chain_filter p xs =
     (case find (\<lambda>x. isl (p x)) xs of
        None \<Rightarrow> Inr (filter (\<lambda>x. p x = Inr True) xs)
      | Some x \<Rightarrow> Inl (projl (p x)))"
proof (induction xs)
  case Nil
  then show ?case by simp
next
  case (Cons x xs)
  show ?case
  proof (cases "p x")
    case (Inl e)
    then show ?thesis by simp
  next
    case (Inr b)
    then show ?thesis using Cons.IH by (cases "find (\<lambda>x. isl (p x)) xs") auto
  qed
qed

lemma filter_callback_isl:
  "isl (filter_callback X (filter_opts X object) v) \<longleftrightarrow>
     channel_platform_ok X object v \<and> range_throws X object v"
  by (auto simp: filter_callback_unfold channel_platform_ok_def range_throws_def
        split: option.splits)

lemma filter_callback_projl:
  "channel_platform_ok X object v \<Longrightarrow> range_throws X object v \<Longrightarrow>
     filter_callback X (filter_opts X object) v = sv_satisfies X (tag v) (requested_tag object)"
  by (auto simp: filter_callback_unfold channel_platform_ok_def range_throws_def
        split: option.splits)

lemma filter_callback_True:
  "filter_callback X (filter_opts X object) v = Inr True \<longleftrightarrow>
     channel_platform_ok X object v \<and>
     (requested_tag object = ''latest'' \<or>
      sv_satisfies X (tag v) (requested_tag object) = Inr True)"
  by (auto simp: filter_callback_unfold channel_platform_ok_def split: option.splits)

text \<open>
  Claim C3, as stated, fails: for the catalog whose only release is tagged \<^verbatim>\<open>nightly\<close>,
  \<^verbatim>\<open>list()\<close> returns that Version, and \<^verbatim>\<open>filter({tag: '>=1.0.0', channel: '*'})\<close> returns no
  list at all: \<^verbatim>\<open>semver.satisfies\<close> throws on the tag.
\<close>

theorem Versions_filter_throws_counterexample:
  "Versions_list ref_externals catalog_nightly =
     Inr [listed ''nightly'' ''nightly'' ''stable'' ''built from main'' 100] \<and>
   snd (Versions_filter ref_externals catalog_nightly
          (Some \<lparr>opt_tag = Some ''>=1.0.0'', opt_platform = None, opt_channel = Some ''*''\<rparr>)) =
     Inl InvalidVersion"
  by (simp add: catalog_nightly_list filter_defs)

text \<open>
  Claim C3, amended. With the defaults merged over the missing fields (and with no argument
  at all), \<^verbatim>\<open>filter\<close> fails with the error of \<^verbatim>\<open>list()\<close> when that fails. When \<^verbatim>\<open>list()\<close>
  returns and \<^verbatim>\<open>semver.satisfies\<close> throws on no Version that passes the channel and the
  platform conditions, \<^verbatim>\<open>filter\<close> returns the Versions of \<^verbatim>\<open>list()\<close>, in its order, for which
  the requested channel is \<^verbatim>\<open>*\<close> or the Version's channel, the platform is unset or
  satisfied by the platforms of the Version's assets, and the requested tag is \<^verbatim>\<open>latest\<close> or
  a range that the Version's tag satisfies. When it throws on one that passes them,
  \<^verbatim>\<open>filter\<close> fails with the error of the first such Version.
\<close>

theorem Versions_filter_result:
  assumes "object = (case arg of None \<Rightarrow> no_options | Some given \<Rightarrow> given)"
  shows "(\<forall>e. Versions_list X this = Inl e \<longrightarrow> snd (Versions_filter X this arg) = Inl e) \<and>
     (\<forall>vs. Versions_list X this = Inr vs \<longrightarrow>
        ((\<forall>v\<in>set vs. channel_platform_ok X object v \<longrightarrow> \<not> range_throws X object v) \<longrightarrow>
           snd (Versions_filter X this arg) =
             Inr (filter
                   (\<lambda>v. (requested_channel object = ''*'' \<or>
                         channel v = requested_channel object) \<and>
                        (case requested_platform X object of
                           None \<Rightarrow> True
                         | Some p \<Rightarrow> p = [] \<or> pf_satisfies X p (map p_type (platforms v))) \<and>
                        (requested_tag object = ''latest'' \<or>
                         sv_satisfies X (tag v) (requested_tag object) = Inr True))
                   vs)) \<and>
        (\<forall>v e. find (\<lambda>v. channel_platform_ok X object v \<and> range_throws X object v) vs = Some v \<and>
               sv_satisfies X (tag v) (requested_tag object) = Inl e \<longrightarrow>
           snd (Versions_filter X this arg) = Inl e))"
proof (intro conjI allI impI)
  fix e assume "Versions_list X this = Inl e"
  then show "snd (Versions_filter X this arg) = Inl e"
    by (simp add: Versions_filter_def Let_def)
next
  fix vs
  assume l: "Versions_list X this = Inr vs"
    and ok: "\<forall>v\<in>set vs. channel_platform_ok X object v \<longrightarrow> \<not> range_throws X object v"
  let ?p = "filter_callback X (filter_opts X object)"
  have "find (\<lambda>v. isl (?p v)) vs = None"
    using ok by (simp add: find_None_iff filter_callback_isl)
  then have "chain_filter ?p vs = Inr (filter (\<lambda>v. ?p v = Inr True) vs)"
    by (simp add: chain_filter_find)
  moreover have "snd (Versions_filter X this arg) = chain_filter ?p vs"
    using l assms by (simp add: Versions_filter_def Let_def)
  ultimately show "snd (Versions_filter X this arg) =
             Inr (filter
                   (\<lambda>v. (requested_channel object = ''*'' \<or>
                         channel v = requested_channel object) \<and>
                        (case requested_platform X object of
                           None \<Rightarrow> True
                         | Some p \<Rightarrow> p = [] \<or> pf_satisfies X p (map p_type (platforms v))) \<and>
                        (requested_tag object = ''latest'' \<or>
                         sv_satisfies X (tag v) (requested_tag object) = Inr True))
                   vs)"
    by (simp add: filter_callback_True channel_platform_ok_def)
next
  fix vs v e
  assume l: "Versions_list X this = Inr vs"
    and f: "find (\<lambda>v. channel_platform_ok X object v \<and> range_throws X object v) vs = Some v \<and>
            sv_satisfies X (tag v) (requested_tag object) = Inl e"
  let ?p = "filter_callback X (filter_opts X object)"
  from f have fv: "find (\<lambda>v. isl (?p v)) vs = Some v"
    by (simp add: filter_callback_isl)
  from f have "channel_platform_ok X object v \<and> range_throws X object v"
    by (auto simp: find_Some_iff)
  then have "?p v = Inl e" using f by (simp add: filter_callback_projl)
  with fv have "chain_filter ?p vs = Inl e" by (simp add: chain_filter_find)
  moreover have "snd (Versions_filter X this arg) = chain_filter ?p vs"
    using l assms by (simp add: Versions_filter_def Let_def)
  ultimately show "snd (Versions_filter X this arg) = Inl e" by simp
qed

theorem Versions_filter_result_witness:
  "snd (Versions_filter ref_externals catalog_three
          (Some \<lparr>opt_tag = Some ''>=1.5.0'', opt_platform = Some ''osx'',
                 opt_channel = Some ''beta''\<rparr>)) =
     Inr [listed ''2.0.0-beta.1'' ''2.0.0'' ''beta'' ''second'' 300] \<and>
   snd (Versions_filter ref_externals catalog_nightly
          (Some \<lparr>opt_tag = Some ''>=1.0.0'', opt_platform = None, opt_channel = Some ''*''\<rparr>)) =
     Inl InvalidVersion"
proof -
  let ?object = "\<lparr>opt_tag = Some ''>=1.5.0'', opt_platform = Some ''osx'',
                   opt_channel = Some ''beta''\<rparr>"
  let ?any = "\<lparr>opt_tag = Some ''>=1.0.0'', opt_platform = None, opt_channel = Some ''*''\<rparr>"
  let ?nightly = "listed ''nightly'' ''nightly'' ''stable'' ''built from main'' 100"
  have r: "requested_tag ?object = ''>=1.5.0''" "requested_channel ?object = ''beta''"
    "requested_platform ref_externals ?object = Some ''osx_64''"
    by (simp_all add: requested_tag_def requested_channel_def requested_platform_def
          ref_externals_sel ref_detect_def)
  have o: "?object = (case Some ?object of None \<Rightarrow> no_options | Some given \<Rightarrow> given)"
    by simp
  have h: "\<forall>v\<in>set [listed ''2.0.0-beta.1'' ''2.0.0'' ''beta'' ''second'' 300,
                    listed ''1.0.0'' ''1.0.0'' ''stable'' ''first'' 100,
                    listed ''1.0.0-beta'' ''1.0.0'' ''beta'' ''third'' 200].
         channel_platform_ok ref_externals ?object v \<longrightarrow>
         \<not> range_throws ref_externals ?object v"
    by (simp add: range_throws_def r listed_def ref_externals_sel ref_satisfies_def
          ref_prec_def numeric_identifier_def digit_of_def)
  have 1: "snd (Versions_filter ref_externals catalog_three (Some ?object)) =
      Inr [listed ''2.0.0-beta.1'' ''2.0.0'' ''beta'' ''second'' 300]"
    using Versions_filter_result [OF o, of ref_externals catalog_three] catalog_three_list h
    by (simp add: r listed_def mac_def ref_externals_sel ref_satisfies_def ref_prec_def
          numeric_identifier_def digit_of_def)
  have a: "?any = (case Some ?any of None \<Rightarrow> no_options | Some given \<Rightarrow> given)"
    by simp
  have q: "requested_tag ?any = ''>=1.0.0''" "requested_channel ?any = ''*''"
    "requested_platform ref_externals ?any = None"
    by (simp_all add: requested_tag_def requested_channel_def requested_platform_def)
  have t: "sv_satisfies ref_externals (tag ?nightly) (requested_tag ?any) = Inl InvalidVersion"
    by (simp add: q listed_def ref_externals_sel ref_satisfies_def ref_prec_def
          numeric_identifier_def digit_of_def)
  have f: "find (\<lambda>v. channel_platform_ok ref_externals ?any v \<and>
                     range_throws ref_externals ?any v) [?nightly] = Some ?nightly"
    using t by (simp add: channel_platform_ok_def range_throws_def q)
  have 2: "snd (Versions_filter ref_externals catalog_nightly (Some ?any)) = Inl InvalidVersion"
    using Versions_filter_result [OF a, of ref_externals catalog_nightly] catalog_nightly_list
      f t
    by blast
  from 1 2 show ?thesis by simp
qed

text \<open>
  Claim C6, as stated, fails: in the catalog of the releases \<^verbatim>\<open>v1.0.0\<close>, \<^verbatim>\<open>v2.0.0-beta.1\<close>
  and \<^verbatim>\<open>v1.0.0-beta\<close>, \<^verbatim>\<open>list()\<close> starts with the beta version 2.0.0, and
  \<^verbatim>\<open>filter({tag: 'latest'})\<close>, whose channel defaults to \<^verbatim>\<open>stable\<close>, returns the stable 1.0.0
  alone: no prefix of the list.
\<close>

theorem Versions_filter_latest_counterexample:
  "Versions_list ref_externals catalog_three =
     Inr [listed ''2.0.0-beta.1'' ''2.0.0'' ''beta'' ''second'' 300,
          listed ''1.0.0'' ''1.0.0'' ''stable'' ''first'' 100,
          listed ''1.0.0-beta'' ''1.0.0'' ''beta'' ''third'' 200] \<and>
   snd (Versions_filter ref_externals catalog_three
          (Some \<lparr>opt_tag = Some ''latest'', opt_platform = None, opt_channel = None\<rparr>)) =
     Inr [listed ''1.0.0'' ''1.0.0'' ''stable'' ''first'' 100] \<and>
   \<not> prefix [listed ''1.0.0'' ''1.0.0'' ''stable'' ''first'' 100]
       [listed ''2.0.0-beta.1'' ''2.0.0'' ''beta'' ''second'' 300,
        listed ''1.0.0'' ''1.0.0'' ''stable'' ''first'' 100,
        listed ''1.0.0-beta'' ''1.0.0'' ''beta'' ''third'' 200]"
  by (simp add: catalog_three_list filter_defs)

text \<open>
  Claim C6, amended. \<^verbatim>\<open>filter({tag: 'latest'})\<close> returns the Versions of \<^verbatim>\<open>list()\<close> whose
  channel is \<^verbatim>\<open>stable\<close>, in the order of \<^verbatim>\<open>list()\<close>: a subsequence of its output (nothing is
  reordered), and not a prefix in general.
\<close>

theorem Versions_filter_latest_subseq:
  assumes "Versions_list X this = Inr vs"
  shows "snd (Versions_filter X this
               (Some \<lparr>opt_tag = Some ''latest'', opt_platform = None, opt_channel = None\<rparr>)) =
           Inr (filter (\<lambda>v. channel v = ''stable'') vs) \<and>
         subseq (filter (\<lambda>v. channel v = ''stable'') vs) vs"
proof -
  let ?object = "\<lparr>opt_tag = Some ''latest'', opt_platform = None, opt_channel = None\<rparr>"
  let ?p = "filter_callback X (filter_opts X ?object)"
  have p: "?p v = Inr (channel v = ''stable'')" for v
    by (simp add: filter_callback_unfold requested_channel_def requested_tag_def
          requested_platform_def)
  then have "chain_filter ?p vs = Inr (filter (\<lambda>v. ?p v = Inr True) vs)"
    by (intro chain_filter_Inr) simp
  then have "chain_filter ?p vs = Inr (filter (\<lambda>v. channel v = ''stable'') vs)"
    by (simp add: p)
  then show ?thesis using assms by (simp add: Versions_filter_def Let_def)
qed

theorem Versions_filter_latest_subseq_witness:
  "snd (Versions_filter ref_externals catalog_three
          (Some \<lparr>opt_tag = Some ''latest'', opt_platform = None, opt_channel = None\<rparr>)) =
     Inr [listed ''1.0.0'' ''1.0.0'' ''stable'' ''first'' 100] \<and>
   subseq [listed ''1.0.0'' ''1.0.0'' ''stable'' ''first'' 100]
     [listed ''2.0.0-beta.1'' ''2.0.0'' ''beta'' ''second'' 300,
      listed ''1.0.0'' ''1.0.0'' ''stable'' ''first'' 100,
      listed ''1.0.0-beta'' ''1.0.0'' ''beta'' ''third'' 200]"
  using Versions_filter_latest_subseq [OF catalog_three_list]
  by (simp add: listed_def)

section \<open>resolve(opts)\<close>

text \<open>
  Claim C4. For an options object, \<^verbatim>\<open>resolve\<close> returns the first element of what \<^verbatim>\<open>filter\<close>
  returns for it; when that is empty, it fails with the error \<^verbatim>\<open>Version not found:\<close>
  followed by the requested tag (the caller's, and \<^verbatim>\<open>latest\<close> when the caller gave none);
  and a failure of \<^verbatim>\<open>filter\<close> is the failure of \<^verbatim>\<open>resolve\<close>.
\<close>

theorem Versions_resolve_first:
  "(\<forall>v rest. snd (Versions_filter X this (Some object)) = Inr (v # rest) \<longrightarrow>
       snd (Versions_resolve X this (Some object)) = Inr v) \<and>
   (snd (Versions_filter X this (Some object)) = Inr [] \<longrightarrow>
       snd (Versions_resolve X this (Some object)) =
         Inl (Error (''Version not found: '' @ requested_tag object))) \<and>
   (\<forall>e. snd (Versions_filter X this (Some object)) = Inl e \<longrightarrow>
       snd (Versions_resolve X this (Some object)) = Inl e)"
  by (auto simp: Versions_resolve_def Versions_filter_def Let_def filter_opts_fields
        split: prod.splits)

theorem Versions_resolve_first_witness:
  "snd (Versions_resolve ref_externals catalog_three
          (Some \<lparr>opt_tag = Some ''>=3.0.0'', opt_platform = None, opt_channel = None\<rparr>)) =
     Inl (Error ''Version not found: >=3.0.0'') \<and>
   snd (Versions_resolve ref_externals catalog_three
          (Some \<lparr>opt_tag = Some ''latest'', opt_platform = None, opt_channel = Some ''*''\<rparr>)) =
     Inr (listed ''2.0.0-beta.1'' ''2.0.0'' ''beta'' ''second'' 300)"
proof -
  have empty: "snd (Versions_filter ref_externals catalog_three
      (Some \<lparr>opt_tag = Some ''>=3.0.0'', opt_platform = None, opt_channel = None\<rparr>)) = Inr []"
    by (simp add: catalog_three_list filter_defs)
  have three: "snd (Versions_filter ref_externals catalog_three
      (Some \<lparr>opt_tag = Some ''latest'', opt_platform = None, opt_channel = Some ''*''\<rparr>)) =
      Inr (listed ''2.0.0-beta.1'' ''2.0.0'' ''beta'' ''second'' 300 #
           [listed ''1.0.0'' ''1.0.0'' ''stable'' ''first'' 100,
            listed ''1.0.0-beta'' ''1.0.0'' ''beta'' ''third'' 200])"
    by (simp add: catalog_three_list filter_defs)
  from Versions_resolve_first [of ref_externals catalog_three
         "\<lparr>opt_tag = Some ''>=3.0.0'', opt_platform = None, opt_channel = None\<rparr>"] empty
  have 1: "snd (Versions_resolve ref_externals catalog_three
          (Some \<lparr>opt_tag = Some ''>=3.0.0'', opt_platform = None, opt_channel = None\<rparr>)) =
     Inl (Error ''Version not found: >=3.0.0'')"
    by (simp add: requested_tag_def)
  from Versions_resolve_first [of ref_externals catalog_three
         "\<lparr>opt_tag = Some ''latest'', opt_platform = None, opt_channel = Some ''*''\<rparr>"] three
  have 2: "snd (Versions_resolve ref_externals catalog_three
          (Some \<lparr>opt_tag = Some ''latest'', opt_platform = None, opt_channel = Some ''*''\<rparr>)) =
     Inr (listed ''2.0.0-beta.1'' ''2.0.0'' ''beta'' ''second'' 300)"
    by blast
  from 1 2 show ?thesis by simp
qed

text \<open>
  With no argument \<^verbatim>\<open>filter\<close> works on a fresh object, and \<^verbatim>\<open>resolve\<close>, whose own \<^verbatim>\<open>opts\<close> is
  then \<^verbatim>\<open>undefined\<close>, throws a TypeError when it builds the message.
\<close>

lemma Versions_resolve_undefined:
  "snd (Versions_filter X this None) = Inr [] \<Longrightarrow>
     snd (Versions_resolve X this None) = Inl TypeError"
  by (auto simp: Versions_resolve_def Versions_filter_def Let_def split: prod.splits)

text \<open>
  Claim C10. After \<^verbatim>\<open>filter(opts)\<close> the caller's object holds the requested tag, platform
  and channel with the defaults filled in (and the platform detected); \<^verbatim>\<open>resolve\<close> leaves the
  same object behind; and when the caller's object had no tag and nothing passes the
  filter, the error of \<^verbatim>\<open>resolve\<close> names the tag \<^verbatim>\<open>latest\<close>.
\<close>

theorem Versions_filter_mutates:
  "fst (Versions_filter X this (Some object)) =
     Some \<lparr>opt_tag = Some (requested_tag object),
           opt_platform = requested_platform X object,
           opt_channel = Some (requested_channel object)\<rparr> \<and>
   fst (Versions_resolve X this (Some object)) = fst (Versions_filter X this (Some object)) \<and>
   (opt_tag object = None \<and> snd (Versions_filter X this (Some object)) = Inr [] \<longrightarrow>
      snd (Versions_resolve X this (Some object)) = Inl (Error ''Version not found: latest''))"
  by (auto simp: Versions_resolve_def Versions_filter_def Let_def filter_opts_fields
        requested_tag_def split: prod.splits)

theorem Versions_filter_mutates_witness:
  "fst (Versions_filter ref_externals catalog_beta (Some no_options)) =
     Some \<lparr>opt_tag = Some ''latest'', opt_platform = None, opt_channel = Some ''stable''\<rparr> \<and>
   snd (Versions_resolve ref_externals catalog_beta (Some no_options)) =
     Inl (Error ''Version not found: latest'')"
proof -
  have empty: "snd (Versions_filter ref_externals catalog_beta (Some no_options)) = Inr []"
    by (simp add: catalog_beta_list filter_defs no_options_def)
  have "opt_tag no_options = None" by (simp add: no_options_def)
  with Versions_filter_mutates [of ref_externals catalog_beta no_options] empty
  show ?thesis
    by (simp add: requested_tag_def requested_channel_def requested_platform_def no_options_def)
qed

section \<open>channels()\<close>

lemma find_snoc:
  "find P (xs @ [x]) =
     (case find P xs of Some y \<Rightarrow> Some y | None \<Rightarrow> if P x then Some x else None)"
  by (induction xs) auto

lemma newest_time_snoc:
  "newest_time (vs @ [v]) = max (newest_time vs) (time_after_epoch v)"
  by (induction vs) auto

lemma newest_time_nonneg: "0 \<le> newest_time vs"
  by (induction vs) (auto simp: time_after_epoch_def split: option.splits)

lemma newest_time_upper: "v \<in> set vs \<Longrightarrow> time_after_epoch v \<le> newest_time vs"
  by (induction vs) auto

lemma newest_time_attained:
  "newest_time vs \<noteq> 0 \<Longrightarrow> \<exists>v\<in>set vs. published_at v = Some (newest_time vs)"
proof (induction vs)
  case Nil
  then show ?case by simp
next
  case (Cons v vs)
  show ?case
  proof (cases "newest_time vs \<le> time_after_epoch v")
    case True
    then have n: "newest_time (v # vs) = time_after_epoch v" by simp
    with Cons.prems have "time_after_epoch v \<noteq> 0" by simp
    then have "published_at v = Some (time_after_epoch v)"
      by (auto simp: time_after_epoch_def max_def split: option.splits if_splits)
    with n show ?thesis by simp
  next
    case False
    then have n: "newest_time (v # vs) = newest_time vs" by simp
    with Cons.prems Cons.IH show ?thesis by auto
  qed
qed

lemma date_less_newest:
  "date_less (Some (newest_time vs)) (published_at v) \<longleftrightarrow>
     newest_time vs < time_after_epoch v"
  using newest_time_nonneg [of vs]
  by (auto simp: date_less_def time_after_epoch_def split: option.splits)

lemma date_less_published:
  "date_less (Some (newest_time vs)) (published_at v) \<Longrightarrow>
     published_at v = Some (time_after_epoch v)"
  using newest_time_nonneg [of vs]
  by (auto simp: date_less_def time_after_epoch_def split: option.splits)

lemma expected_latest_snoc_newer:
  assumes "newest_time vs < time_after_epoch v"
    and "published_at v = Some (time_after_epoch v)"
  shows "expected_latest (vs @ [v]) = Some (tag v)"
proof -
  have n: "newest_time (vs @ [v]) = time_after_epoch v"
    using assms(1) by (simp add: newest_time_snoc)
  have "time_after_epoch v \<noteq> 0" using assms(1) newest_time_nonneg [of vs] by simp
  moreover have "find (\<lambda>w. published_at w = Some (time_after_epoch v)) vs = None"
  proof -
    have "published_at w \<noteq> Some (time_after_epoch v)" if "w \<in> set vs" for w
    proof
      assume "published_at w = Some (time_after_epoch v)"
      then have "time_after_epoch w = time_after_epoch v"
        using assms(1) newest_time_nonneg [of vs] by (simp add: time_after_epoch_def)
      with newest_time_upper [OF that] assms(1) show False by simp
    qed
    then show ?thesis by (simp add: find_None_iff)
  qed
  ultimately show ?thesis using n assms(2) by (simp add: expected_latest_def find_snoc)
qed

lemma expected_latest_snoc_older:
  assumes "\<not> newest_time vs < time_after_epoch v"
  shows "expected_latest (vs @ [v]) = expected_latest vs"
proof -
  have n: "newest_time (vs @ [v]) = newest_time vs"
    using assms by (simp add: newest_time_snoc)
  show ?thesis
  proof (cases "newest_time vs = 0")
    case True
    then show ?thesis using n by (simp add: expected_latest_def)
  next
    case False
    from newest_time_attained [OF False] obtain w where
      "w \<in> set vs" "published_at w = Some (newest_time vs)" by blast
    then have "find (\<lambda>w. published_at w = Some (newest_time vs)) vs \<noteq> None"
      by (auto simp: find_None_iff)
    then show ?thesis using n False by (auto simp: expected_latest_def find_snoc)
  qed
qed

lemma channels_each_other:
  "c \<notin> set Object_prototype \<Longrightarrow>
     channels_each m v c = (if channel v = c then Some (count_version (m c) v) else m c)"
  by (auto simp: channels_each_def)

lemma count_version_summarises:
  assumes "summarises own cs"
  shows "summarises (Some (count_version own v)) (cs @ [v])"
proof (cases "cs = []")
  case True
  then have own: "own = None" using assms by (simp add: summarises_def)
  have d: "date_less (Some 0) (published_at v) \<longleftrightarrow> newest_time [] < time_after_epoch v"
    using date_less_newest [of "[]" v] by simp
  show ?thesis
  proof (cases "newest_time [] < time_after_epoch v")
    case less: True
    then have p: "published_at v = Some (time_after_epoch v)"
      using date_less_published [of "[]" v] d by simp
    have "expected_latest ([] @ [v]) = Some (tag v)"
      using less p by (rule expected_latest_snoc_newer)
    then show ?thesis using True own d less p
      by (simp add: summarises_def count_version_def)
  next
    case notless: False
    have "expected_latest ([] @ [v]) = expected_latest []"
      using notless by (rule expected_latest_snoc_older)
    moreover have "expected_latest [] = None" by (simp add: expected_latest_def)
    ultimately show ?thesis using True own d notless
      by (simp add: summarises_def count_version_def)
  qed
next
  case False
  then have own: "own = Some \<lparr>latest = expected_latest cs, versions_count = length cs,
                        summary_published_at = Some (newest_time cs)\<rparr>"
    using assms by (simp add: summarises_def)
  show ?thesis
  proof (cases "newest_time cs < time_after_epoch v")
    case less: True
    then have d: "date_less (Some (newest_time cs)) (published_at v)"
      by (simp add: date_less_newest)
    then have p: "published_at v = Some (time_after_epoch v)"
      by (rule date_less_published)
    have "expected_latest (cs @ [v]) = Some (tag v)"
      using less p by (rule expected_latest_snoc_newer)
    moreover have "newest_time (cs @ [v]) = time_after_epoch v"
      using less by (simp add: newest_time_snoc)
    ultimately show ?thesis using own d p
      by (simp add: summarises_def count_version_def)
  next
    case notless: False
    then have d: "\<not> date_less (Some (newest_time cs)) (published_at v)"
      by (simp add: date_less_newest)
    have "expected_latest (cs @ [v]) = expected_latest cs"
      using notless by (rule expected_latest_snoc_older)
    moreover have "newest_time (cs @ [v]) = newest_time cs"
      using notless by (simp add: newest_time_snoc)
    ultimately show ?thesis using own d
      by (simp add: summarises_def count_version_def)
  qed
qed

lemma foldl_channels_each_summarises:
  assumes "c \<notin> set Object_prototype"
  shows "summarises (foldl channels_each Map.empty vs c) (filter (\<lambda>v. channel v = c) vs)"
proof (induction vs rule: rev_induct)
  case Nil
  then show ?case by (simp add: summarises_def)
next
  case (snoc v vs)
  show ?case
  proof (cases "channel v = c")
    case True
    then show ?thesis
      using count_version_summarises [OF snoc.IH, of v] assms
      by (simp add: channels_each_other)
  next
    case False
    then show ?thesis using snoc.IH assms by (simp add: channels_each_other)
  qed
qed

lemma foldl_channels_each_inherited:
  "c \<in> set Object_prototype \<Longrightarrow> foldl channels_each Map.empty vs c = None"
  by (induction vs rule: rev_induct) (auto simp: channels_each_def)

text \<open>
  A channel whose name is a property that objects inherit (the channel \<^verbatim>\<open>constructor\<close> of
  the tag \<^verbatim>\<open>v1.0.0-constructor\<close>, say) gets no summary at all.
\<close>

lemma Versions_channels_inherited_name:
  "Versions_list X this = Inr vs \<Longrightarrow> c \<in> set Object_prototype \<Longrightarrow>
     summary_of (Versions_channels X this) c = Inr None"
  by (simp add: summary_of_def Versions_channels_def foldl_channels_each_inherited)

text \<open>
  Claim C8, as stated, fails: for a catalog whose only release is published at the epoch
  (time value 0, the Date of a \<^verbatim>\<open>published_at\<close> that is \<^verbatim>\<open>null\<close>), the summary of the channel
  \<^verbatim>\<open>stable\<close> counts the version and its \<^verbatim>\<open>latest\<close> is \<^verbatim>\<open>null\<close>, not the version's tag: the
  comparison \<^verbatim>\<open>0 < version.published_at\<close> is false.
\<close>

theorem Versions_channels_epoch_counterexample:
  "Versions_list ref_externals catalog_epoch =
     Inr [listed ''1.0.0'' ''1.0.0'' ''stable'' ''first'' 0] \<and>
   summary_of (Versions_channels ref_externals catalog_epoch) ''stable'' =
     Inr (Some \<lparr>latest = None, versions_count = 1, summary_published_at = Some 0\<rparr>)"
  by (simp add: catalog_epoch_list summary_of_def Versions_channels_def channels_each_def
        count_version_def date_less_def listed_def Object_prototype_def)

text \<open>
  Claim C8, amended. For a channel name that objects do not inherit: \<^verbatim>\<open>channels()\<close> has no
  summary for it when no Version of \<^verbatim>\<open>list()\<close> has that channel; otherwise its
  \<^verbatim>\<open>versions_count\<close> is the number of Versions of \<^verbatim>\<open>list()\<close> with that channel, its
  \<^verbatim>\<open>published_at\<close> is the greatest valid date after the epoch among them (0 when there is
  none), and its \<^verbatim>\<open>latest\<close> is the tag of the first of them, in the order of \<^verbatim>\<open>list()\<close>,
  that is published at that date, and \<^verbatim>\<open>null\<close> when none has a valid date after the epoch.
\<close>

theorem Versions_channels_summary:
  assumes "Versions_list X this = Inr vs" and "c \<notin> set Object_prototype"
  shows "summary_of (Versions_channels X this) c =
     Inr (if filter (\<lambda>v. channel v = c) vs = [] then None
          else Some \<lparr>latest = expected_latest (filter (\<lambda>v. channel v = c) vs),
                     versions_count = length (filter (\<lambda>v. channel v = c) vs),
                     summary_published_at =
                       Some (newest_time (filter (\<lambda>v. channel v = c) vs))\<rparr>)"
  using foldl_channels_each_summarises [OF assms(2), of vs] assms(1)
  by (simp add: summary_of_def Versions_channels_def summarises_def)

theorem Versions_channels_summary_witness:
  "summary_of (Versions_channels ref_externals catalog_three) ''beta'' =
     Inr (Some \<lparr>latest = Some ''2.0.0'', versions_count = 2, summary_published_at = Some 300\<rparr>)"
proof -
  have c: "''beta'' \<notin> set Object_prototype" by (simp add: Object_prototype_def)
  from Versions_channels_summary [OF catalog_three_list c] show ?thesis
    by (simp add: listed_def expected_latest_def time_after_epoch_def)
qed

section \<open>onUpdate\<close>

text \<open>
  Claim C5. When \<^verbatim>\<open>filter\<close> gives at least one version and the newest is not the client's,
  the notes of the response are the merge of the newest version alone when it is the only
  one, and otherwise of all the filtered versions but the last: \<^verbatim>\<open>onUpdate\<close> takes the
  oldest version that satisfies \<^verbatim>\<open>>=\<close> the client's version for the client's own, whether
  or not it is. When the client's version is not in the catalog, the notes of the oldest
  newer version are missing: for a client at 1.0.0 and the releases 2.0.0 and 1.5.0, the
  notes are those of 2.0.0 only.
\<close>

theorem onUpdate_notes:
  assumes "t = hd (split CHR ''-'' (params_version req))" and "t \<noteq> []"
    and "params_platform req \<noteq> []"
    and "c = (case params_channel req of
                None \<Rightarrow> ''*'' | Some given \<Rightarrow> if given = [] then ''*'' else given)"
    and "snd (Versions_filter X versions_of_nuts
                (Some \<lparr>opt_tag = Some (''>='' @ t),
                       opt_platform = pf_detect X (params_platform req),
                       opt_channel = Some c\<rparr>)) = Inr (newest # rest)"
    and "tag newest \<noteq> t" and "published_at newest = Some d"
  shows "onUpdate X versions_of_nuts req =
     Inr (Update \<lparr>u_name = tag newest,
                  u_notes = notes_merge X (if rest = [] then [newest]
                                           else butlast (newest # rest)),
                  u_channel = c,
                  u_pub_date = d\<rparr>)"
  using assms
  by (cases rest) (simp_all add: onUpdate_def Let_def notesSlice_def)

lemma catalog_update_filter:
  "snd (Versions_filter ref_externals catalog_update
          (Some \<lparr>opt_tag = Some ''>=1.0.0'', opt_platform = Some ''osx_64'',
                 opt_channel = Some ''*''\<rparr>)) =
     Inr [listed ''2.0.0'' ''2.0.0'' ''stable'' ''Notes of 2.0.0. '' 300,
          listed ''1.5.0'' ''1.5.0'' ''stable'' ''Notes of 1.5.0. '' 200]"
  by (simp add: catalog_update_list filter_defs)

theorem onUpdate_notes_witness:
  "onUpdate ref_externals catalog_update
     \<lparr>params_platform = ''osx'', params_channel = None, params_version = ''1.0.0''\<rparr> =
   Inr (Update \<lparr>u_name = ''2.0.0'', u_notes = ''Notes of 2.0.0. '', u_channel = ''*'',
                u_pub_date = 300\<rparr>)"
proof -
  let ?req = "\<lparr>params_platform = ''osx'', params_channel = None, params_version = ''1.0.0''\<rparr>"
  have t: "''1.0.0'' = hd (split CHR ''-'' (params_version ?req))" by simp
  have d: "pf_detect ref_externals ''osx'' = Some ''osx_64''"
    by (simp add: ref_externals_sel ref_detect_def)
  have f: "snd (Versions_filter ref_externals catalog_update
          (Some \<lparr>opt_tag = Some (''>='' @ ''1.0.0''),
                 opt_platform = pf_detect ref_externals (params_platform ?req),
                 opt_channel = Some ''*''\<rparr>)) =
     Inr (listed ''2.0.0'' ''2.0.0'' ''stable'' ''Notes of 2.0.0. '' 300 #
          [listed ''1.5.0'' ''1.5.0'' ''stable'' ''Notes of 1.5.0. '' 200])"
    using catalog_update_filter by (simp add: d)
  have "onUpdate ref_externals catalog_update ?req =
     Inr (Update \<lparr>u_name = tag (listed ''2.0.0'' ''2.0.0'' ''stable'' ''Notes of 2.0.0. '' 300),
                  u_notes = notes_merge ref_externals
                    (if [listed ''1.5.0'' ''1.5.0'' ''stable'' ''Notes of 1.5.0. '' 200] = []
                     then [listed ''2.0.0'' ''2.0.0'' ''stable'' ''Notes of 2.0.0. '' 300]
                     else butlast
                            (listed ''2.0.0'' ''2.0.0'' ''stable'' ''Notes of 2.0.0. '' 300 #
                             [listed ''1.5.0'' ''1.5.0'' ''stable'' ''Notes of 1.5.0. '' 200])),
                  u_channel = ''*'',
                  u_pub_date = 300\<rparr>)"
    by (rule onUpdate_notes [OF t _ _ _ f]) (simp_all add: listed_def)
  then show ?thesis by (simp add: listed_def ref_externals_sel ref_notes_merge_def)
qed

end
